theory Spec2Isabelle
  imports
    Complex_Main
    "HOL-Library.Sublist"
    "HOL-Library.AList"
begin

section \<open>Text: Python strings, \<open>str()\<close>, \<open>lower()\<close> and \<open>in\<close>\<close>

text \<open>
  Descriptions, category names and keywords are Python \<open>str\<close> values: sequences of Unicode
  code points. A text is modelled as the \<^typ>\<open>string\<close> that holds its UTF-8 encoding, so a
  text of ASCII characters is the string of these characters. Two texts are equal when
  their encodings are, and one occurs in the other when its encoding occurs in the
  encoding of the other.

  \<open>str.lower()\<close> applies the case mapping of the Unicode standard. Its table is not part
  of the program: every function below that lower-cases takes the lower-casing function
  as its first argument \<open>lower\<close>, and the properties are shown for every such function.
\<close>

text \<open>
  Exceptions are values: \<open>Inl\<close> of a \<open>py_error\<close> is an exception leaving the code that is
  modelled.
\<close>

datatype py_error = KeyError string | OSError string | ValueError string

text \<open>
  What \<open>str.lower()\<close> does on a text of ASCII characters: the letters \<open>A\<close> to \<open>Z\<close> become
  \<open>a\<close> to \<open>z\<close>, every other character stays. \<open>lowers_ascii\<close> says of a lower-casing function
  that it does so; \<open>keeps_empty\<close> says that only the empty text has an empty lower-case
  form. \<open>str.lower()\<close> has both properties.
\<close>

definition lower_char :: "char \<Rightarrow> char" where
  "lower_char c =
     (let n = (of_char c :: nat) in if 65 \<le> n \<and> n \<le> 90 then char_of (n + 32) else c)"

definition ascii_lower :: "string \<Rightarrow> string" where
  "ascii_lower s = map lower_char s"

definition is_ascii :: "string \<Rightarrow> bool" where
  "is_ascii s = list_all (\<lambda>c. (of_char c :: nat) < 128) s"

definition lowers_ascii :: "(string \<Rightarrow> string) \<Rightarrow> bool" where
  "lowers_ascii lower \<longleftrightarrow> (\<forall>s. is_ascii s \<longrightarrow> lower s = ascii_lower s)"

definition keeps_empty :: "(string \<Rightarrow> string) \<Rightarrow> bool" where
  "keeps_empty lower \<longleftrightarrow> (\<forall>s. lower s = [] \<longleftrightarrow> s = [])"

text \<open>
  The code points of a text and the text of a list of code points (UTF-8, one to four
  bytes for a code point). A byte that starts a sequence the text does not complete,
  which no Python text has, stands for itself.
\<close>

fun decode :: "string \<Rightarrow> nat list" where
  "decode [] = []"
| "decode (b # bs) =
     (let n = (of_char b :: nat) in
      if n < 128 then n # decode bs
      else if n < 224 then
        (case bs of
           c1 # rest \<Rightarrow> ((n - 192) * 64 + (of_char c1 - 128)) # decode rest
         | _ \<Rightarrow> n # decode bs)
      else if n < 240 then
        (case bs of
           c1 # c2 # rest \<Rightarrow>
             ((n - 224) * 4096 + (of_char c1 - 128) * 64 + (of_char c2 - 128)) # decode rest
         | _ \<Rightarrow> n # decode bs)
      else
        (case bs of
           c1 # c2 # c3 # rest \<Rightarrow>
             ((n - 240) * 262144 + (of_char c1 - 128) * 4096 + (of_char c2 - 128) * 64
                + (of_char c3 - 128)) # decode rest
         | _ \<Rightarrow> n # decode bs))"

definition encode_point :: "nat \<Rightarrow> string" where
  "encode_point p =
     (if p < 128 then [char_of p]
      else if p < 2048 then [char_of (192 + p div 64), char_of (128 + p mod 64)]
      else if p < 65536 then
        [char_of (224 + p div 4096), char_of (128 + p div 64 mod 64), char_of (128 + p mod 64)]
      else
        [char_of (240 + p div 262144), char_of (128 + p div 4096 mod 64),
         char_of (128 + p div 64 mod 64), char_of (128 + p mod 64)])"

definition encode :: "nat list \<Rightarrow> string" where
  "encode ps = concat (map encode_point ps)"

text \<open>
  The case of the letters of two alphabets, Basic Latin and Greek (capitals U+0391 to
  U+03A9, small letters U+03B1 to U+03C9), as the Unicode standard has it. The small form
  of the capital sigma U+03A3 depends on its place: it is the final sigma U+03C2 when a
  cased letter stands before it and none after it, characters that are ignored for case
  (among the ASCII characters: apostrophe, full stop, colon, circumflex, grave accent)
  being skipped on both sides, and the sigma U+03C3 otherwise. \<open>lower_latin_greek\<close> is
  \<open>str.lower()\<close> on texts of ASCII characters and Greek letters; it serves to evaluate the
  classifier on such texts.
\<close>

definition cased :: "nat \<Rightarrow> bool" where
  "cased p \<longleftrightarrow>
     (65 \<le> p \<and> p \<le> 90) \<or> (97 \<le> p \<and> p \<le> 122)
     \<or> (913 \<le> p \<and> p \<le> 937 \<and> p \<noteq> 930) \<or> (945 \<le> p \<and> p \<le> 969)"

definition case_ignorable :: "nat \<Rightarrow> bool" where
  "case_ignorable p \<longleftrightarrow> p \<in> {39, 46, 58, 94, 96}"

definition lower_point :: "nat \<Rightarrow> nat" where
  "lower_point p =
     (if (65 \<le> p \<and> p \<le> 90) \<or> (913 \<le> p \<and> p \<le> 937 \<and> p \<noteq> 930) then p + 32 else p)"

definition upper_point :: "nat \<Rightarrow> nat" where
  "upper_point p =
     (if 97 \<le> p \<and> p \<le> 122 then p - 32
      else if p = 962 then 931
      else if 945 \<le> p \<and> p \<le> 969 then p - 32
      else p)"

definition final_sigma :: "nat list \<Rightarrow> nat list \<Rightarrow> bool" where
  "final_sigma seen rest \<longleftrightarrow>
     (case dropWhile case_ignorable seen of [] \<Rightarrow> False | p # _ \<Rightarrow> cased p)
     \<and> (case dropWhile case_ignorable rest of [] \<Rightarrow> True | p # _ \<Rightarrow> \<not> cased p)"

fun lower_points :: "nat list \<Rightarrow> nat list \<Rightarrow> nat list" where
  "lower_points seen [] = []"
| "lower_points seen (p # rest) =
     (if p = 931 then (if final_sigma seen rest then 962 else 963) else lower_point p)
       # lower_points (p # seen) rest"

definition lower_latin_greek :: "string \<Rightarrow> string" where
  "lower_latin_greek s = encode (lower_points [] (decode s))"

text \<open>
  Two code points are the same letter when they have the same capital (for the letters of
  the two alphabets above; every other code point is its own capital); two texts differ
  only in letter case when they are, code point by code point, the same letters.
\<close>

definition same_letter :: "nat \<Rightarrow> nat \<Rightarrow> bool" where
  "same_letter p q \<longleftrightarrow> upper_point p = upper_point q"

definition differ_only_in_case :: "string \<Rightarrow> string \<Rightarrow> bool" where
  "differ_only_in_case d1 d2 = list_all2 same_letter (decode d1) (decode d2)"

text \<open>
  \<open>needle in hay\<close> on two strings: \<open>needle\<close> occurs in \<open>hay\<close> as a contiguous run,
  searched from the left. The empty string occurs in every string.
\<close>

fun str_contains :: "string \<Rightarrow> string \<Rightarrow> bool" where
  "str_contains needle [] = (needle = [])"
| "str_contains needle (c # cs) = (prefix needle (c # cs) \<or> str_contains needle cs)"

text \<open>
  The values \<open>categorize_expense\<close> may be handed as a description, and their \<open>str()\<close>.
  The form field always delivers a \<open>PyStr\<close>. \<open>str()\<close> of an integer of more than 4300
  decimal digits raises \<open>ValueError\<close> (the limit of CPython 3.11 and later on the
  conversion of integers to text).
\<close>

datatype py_value = PyStr string | PyNone | PyBool bool | PyInt int

fun digits :: "nat \<Rightarrow> string" where
  "digits n =
     (if n < 10 then [char_of (48 + n)]
      else digits (n div 10) @ [char_of (48 + n mod 10)])"

declare digits.simps [simp del]

definition str_int :: "int \<Rightarrow> string" where
  "str_int i = (if i < 0 then CHR ''-'' # digits (nat (- i)) else digits (nat i))"

definition int_str_limit :: int where
  "int_str_limit = 10 ^ 4300"

definition digits_error :: py_error where
  "digits_error = ValueError ''Exceeds the limit (4300 digits) for integer string conversion''"

fun str :: "py_value \<Rightarrow> py_error + string" where
  "str (PyStr s) = Inr s"
| "str PyNone = Inr ''None''"
| "str (PyBool b) = Inr (if b then ''True'' else ''False'')"
| "str (PyInt i) = (if int_str_limit \<le> \<bar>i\<bar> then Inl digits_error else Inr (str_int i))"

section \<open>The category store and the classifier\<close>

text \<open>
  \<open>categories\<close> is the dictionary read from \<open>categories.json\<close>: category name to list of
  keywords. A Python dictionary iterates in insertion order, so it is an association list;
  its keys are distinct.
\<close>

type_synonym categories = "(string \<times> string list) list"

text \<open>The store written to \<open>categories.json\<close> when the file does not exist yet.\<close>

definition default_categories :: categories where
  "default_categories =
     [(''Food'', [''grocery'', ''restaurant'', ''lunch'']),
      (''Transport'', [''uber'', ''taxi'', ''gas'']),
      (''Entertainment'', [''movie'', ''game'', ''concert'']),
      (''Bills'', [''electric'', ''water'', ''internet'']),
      (''Other'', [])]"

text \<open>The inner loop of \<open>categorize_expense\<close>: does some keyword of the list trigger the return?\<close>

fun keyword_loop :: "(string \<Rightarrow> string) \<Rightarrow> string \<Rightarrow> string list \<Rightarrow> bool" where
  "keyword_loop lower description [] = False"
| "keyword_loop lower description (keyword # keywords) =
     (if str_contains (lower keyword) description then True
      else keyword_loop lower description keywords)"

text \<open>The outer loop over \<open>categories.items()\<close>, with the final \<open>return "Other"\<close>.\<close>

fun category_loop :: "(string \<Rightarrow> string) \<Rightarrow> string \<Rightarrow> categories \<Rightarrow> string" where
  "category_loop lower description [] = ''Other''"
| "category_loop lower description ((category, keywords) # rest) =
     (if keyword_loop lower description keywords then category
      else category_loop lower description rest)"

text \<open>
  \<open>categorize_expense\<close>: the description is turned into text and lower-cased, then the
  loops run. An exception of \<open>str()\<close> leaves the function.
\<close>

definition categorize_expense ::
  "(string \<Rightarrow> string) \<Rightarrow> py_value \<Rightarrow> categories \<Rightarrow> py_error + string" where
  "categorize_expense lower description categories =
     (case str description of
        Inl e \<Rightarrow> Inl e
      | Inr text \<Rightarrow> Inr (category_loop lower (lower text) categories))"

text \<open>
  Positions in the store, for stating the order of matches: the lower-case form of
  keyword \<open>j\<close> of the \<open>i\<close>-th category occurs in the lower-case form of the description;
  and the order in which the two loops visit positions.
\<close>

definition matches_at :: "(string \<Rightarrow> string) \<Rightarrow> string \<Rightarrow> categories \<Rightarrow> nat \<Rightarrow> nat \<Rightarrow> bool" where
  "matches_at lower description categories i j \<longleftrightarrow>
     i < length categories \<and> j < length (snd (categories ! i)) \<and>
     sublist (lower (snd (categories ! i) ! j)) (lower description)"

definition earlier :: "nat \<times> nat \<Rightarrow> nat \<times> nat \<Rightarrow> bool" where
  "earlier p q \<longleftrightarrow> fst p < fst q \<or> (fst p = fst q \<and> snd p < snd q)"

text \<open>No keyword of the store is the empty string.\<close>

definition no_empty_keyword :: "categories \<Rightarrow> bool" where
  "no_empty_keyword categories = list_all (\<lambda>(category, keywords). [] \<notin> set keywords) categories"

text \<open>
  A Greek word of four letters, omicron delta omicron sigma, in small letters (U+03BF,
  U+03B4, U+03BF, U+03C3) and in capitals (U+039F, U+0394, U+039F, U+03A3).
\<close>

definition odos_small :: string where
  "odos_small = encode [959, 948, 959, 963]"

definition odos_capital :: string where
  "odos_capital = encode [927, 916, 927, 931]"

section \<open>Adding a keyword\<close>

text \<open>
  The handler of the button \<open>Add Keyword\<close> (\<open>main\<close>, lines 169 to 174). Nothing happens for an
  empty keyword. \<open>categories[selected_category]\<close> raises \<open>KeyError\<close> for a name that is not a
  key; \<open>append\<close> changes the list of the key in place, so the order of the keys stays.
\<close>

definition add_keyword :: "string \<Rightarrow> string \<Rightarrow> categories \<Rightarrow> py_error + categories" where
  "add_keyword selected_category new_keyword categories =
     (if new_keyword \<noteq> [] then
        (case map_of categories selected_category of
           None \<Rightarrow> Inl (KeyError selected_category)
         | Some keywords \<Rightarrow>
             Inr (AList.update selected_category (keywords @ [new_keyword]) categories))
      else Inr categories)"

section \<open>The ledger\<close>

text \<open>
  A row of the expenses table with its four columns. \<open>Date\<close> is the value of the
  timestamp, an integer; \<open>Amount\<close> is a rational number: the handlers below
  use the sign of an amount and nothing else of it.
\<close>

record expense =
  Date :: int
  Description :: string
  Category :: string
  Amount :: rat

text \<open>
  The handler of the button \<open>Add Expense\<close> (\<open>main\<close>, lines 93 to 104). The two error
  messages are the two values of \<open>validation_error\<close>; otherwise the new row is appended
  by \<open>pd.concat\<close> and the table is saved.
\<close>

datatype validation_error = Please_enter_a_description | Amount_must_be_positive

definition add_expense ::
  "int \<Rightarrow> string \<Rightarrow> string \<Rightarrow> rat \<Rightarrow> expense list \<Rightarrow> validation_error + expense list" where
  "add_expense date description category amount expenses_df =
     (if description = [] then Inl Please_enter_a_description
      else if amount \<le> 0 then Inl Amount_must_be_positive
      else
        let new_expense =
              [\<lparr>Date = date, Description = description, Category = category, Amount = amount\<rparr>]
        in Inr (expenses_df @ new_expense))"

text \<open>
  The listing of the tab \<open>Expenses\<close> (\<open>main\<close>, lines 135 to 142): the mask on the dates, then
  the mask on the category unless the selection is \<open>All\<close>. The selection box always
  delivers a name.
\<close>

definition filter_expenses :: "int \<Rightarrow> int \<Rightarrow> string \<Rightarrow> expense list \<Rightarrow> expense list" where
  "filter_expenses start_date end_date selected_category expenses_df =
     (let filtered_df = filter (\<lambda>r. Date r \<ge> start_date \<and> Date r \<le> end_date) expenses_df
      in if selected_category \<noteq> ''All''
         then filter (\<lambda>r. Category r = selected_category) filtered_df
         else filtered_df)"

text \<open>A ledger of three records, for concrete inputs.\<close>

definition sample_ledger :: "expense list" where
  "sample_ledger =
     [\<lparr>Date = 3, Description = ''weekly shop'', Category = ''Food'', Amount = 10\<rparr>,
      \<lparr>Date = 1, Description = ''lunch'', Category = ''Food'', Amount = 11 / 2\<rparr>,
      \<lparr>Date = 2, Description = ''bus'', Category = ''Transport'', Amount = 13 / 4\<rparr>]"

section \<open>Loading the persisted state\<close>

text \<open>
  A table as \<open>pandas\<close> holds it: the number of rows and the columns in order, each with
  one cell per row. What \<open>pd.read_csv\<close>, \<open>pd.to_datetime\<close>, \<open>open\<close> and \<open>json.load\<close>
  deliver is a parameter of the functions below: an exception or a value.
\<close>

datatype cell = Missing | Text string | Number rat | Timestamp int

record data_frame =
  nrows :: nat
  columns :: "(string \<times> cell list) list"

definition DataFrame :: "string list \<Rightarrow> data_frame" where
  "DataFrame cols = \<lparr>nrows = 0, columns = map (\<lambda>col. (col, [])) cols\<rparr>"

definition required_columns :: "string list" where
  "required_columns = [''Date'', ''Description'', ''Category'', ''Amount'']"

definition add_missing_column :: "string \<Rightarrow> data_frame \<Rightarrow> data_frame" where
  "add_missing_column col df =
     (if col \<notin> set (map fst (columns df))
      then df\<lparr>columns := columns df @
                 [(col, replicate (nrows df) (if col \<noteq> ''Amount'' then Missing else Number 0))]\<rparr>
      else df)"

text \<open>
  The body of the \<open>try\<close> of \<open>load_data\<close>, and \<open>load_data\<close> with its \<open>except\<close>.
\<close>

definition load_data_try ::
  "(py_error + data_frame) \<Rightarrow> (cell list \<Rightarrow> py_error + cell list) \<Rightarrow> py_error + data_frame" where
  "load_data_try read_csv to_datetime =
     (case read_csv of
        Inl e \<Rightarrow> Inl e
      | Inr df0 \<Rightarrow>
          let df = fold add_missing_column required_columns df0
          in (case map_of (columns df) ''Date'' of
                None \<Rightarrow> Inr df
              | Some dates \<Rightarrow>
                  (case to_datetime dates of
                     Inl e \<Rightarrow> Inl e
                   | Inr stamps \<Rightarrow> Inr (df\<lparr>columns := AList.update ''Date'' stamps (columns df)\<rparr>))))"

definition load_data ::
  "(py_error + data_frame) \<Rightarrow> (cell list \<Rightarrow> py_error + cell list) \<Rightarrow> data_frame" where
  "load_data read_csv to_datetime =
     (case load_data_try read_csv to_datetime of
        Inr df \<Rightarrow> df
      | Inl e \<Rightarrow> DataFrame [''Date'', ''Description'', ''Category'', ''Amount''])"

text \<open>
  The body of the \<open>try\<close> of \<open>load_categories\<close>, and \<open>load_categories\<close> with its \<open>except\<close>.
  \<open>json_load\<close> delivers a store: a file whose content is valid JSON of another shape is
  not covered.
\<close>

definition load_categories_try ::
  "(py_error + string) \<Rightarrow> (string \<Rightarrow> py_error + categories) \<Rightarrow> py_error + categories" where
  "load_categories_try open_file json_load =
     (case open_file of Inl e \<Rightarrow> Inl e | Inr f \<Rightarrow> json_load f)"

definition load_categories ::
  "(py_error + string) \<Rightarrow> (string \<Rightarrow> py_error + categories) \<Rightarrow> categories" where
  "load_categories open_file json_load =
     (case load_categories_try open_file json_load of
        Inr categories \<Rightarrow> categories
      | Inl e \<Rightarrow> [(''Other'', [])])"

text \<open>Stand-ins for the two parsers, used on concrete inputs.\<close>

definition sample_to_datetime :: "cell list \<Rightarrow> py_error + cell list" where
  "sample_to_datetime dates =
     (if Text ''yesterday'' \<in> set dates then Inl (ValueError ''Unknown datetime string format'')
      else Inr dates)"

definition sample_json_load :: "string \<Rightarrow> py_error + categories" where
  "sample_json_load f =
     (if f = ''{}'' then Inr [] else Inl (ValueError ''Expecting value''))"

section \<open>Properties of the text operations\<close>

lemma lower_code_small: "65 \<le> n \<Longrightarrow> n \<le> 90 \<Longrightarrow> (n + 32) mod 256 = (n + 32 :: nat)"
  by simp

lemma of_char_lower:
  "(of_char (lower_char c) :: nat) =
     (if 65 \<le> (of_char c :: nat) \<and> (of_char c :: nat) \<le> 90 then of_char c + 32 else of_char c)"
  by (simp add: lower_char_def Let_def lower_code_small)

lemma lower_code_same_capital:
  fixes m n :: nat
  assumes "m < 128" "n < 128"
    and "(if 97 \<le> m \<and> m \<le> 122 then m - 32 else m) = (if 97 \<le> n \<and> n \<le> 122 then n - 32 else n)"
  shows "(if 65 \<le> m \<and> m \<le> 90 then m + 32 else m) = (if 65 \<le> n \<and> n \<le> 90 then n + 32 else n)"
  using assms by (auto split: if_splits)

lemma upper_point_ascii:
  "p < 128 \<Longrightarrow> upper_point p = (if 97 \<le> p \<and> p \<le> 122 then p - 32 else p)"
  by (simp add: upper_point_def)

lemma same_letter_lower_char:
  assumes "(of_char a :: nat) < 128" "(of_char b :: nat) < 128"
    and "same_letter (of_char a) (of_char b)"
  shows "lower_char a = lower_char b"
proof -
  from assms have "(if 97 \<le> (of_char a :: nat) \<and> (of_char a :: nat) \<le> 122 then of_char a - 32 else of_char a)
      = (if 97 \<le> (of_char b :: nat) \<and> (of_char b :: nat) \<le> 122 then of_char b - 32 else (of_char b :: nat))"
    by (simp only: same_letter_def upper_point_ascii)
  with assms(1,2) have "(of_char (lower_char a) :: nat) = of_char (lower_char b)"
    unfolding of_char_lower by (rule lower_code_same_capital)
  then show ?thesis by simp
qed

lemma decode_ascii: "is_ascii s \<Longrightarrow> decode s = map of_char s"
  by (induction s) (simp_all add: is_ascii_def Let_def)

lemma differ_only_in_case_ascii:
  "is_ascii d1 \<Longrightarrow> is_ascii d2 \<Longrightarrow>
   differ_only_in_case d1 d2 = list_all2 (\<lambda>a b. same_letter (of_char a) (of_char b)) d1 d2"
  by (simp add: differ_only_in_case_def decode_ascii list_all2_map1 list_all2_map2)

lemma same_letters_ascii_lower:
  "list_all2 (\<lambda>a b. same_letter (of_char a) (of_char b)) d1 d2 \<Longrightarrow>
   is_ascii d1 \<Longrightarrow> is_ascii d2 \<Longrightarrow> ascii_lower d1 = ascii_lower d2"
  by (induction d1 d2 rule: list_all2_induct)
     (simp_all add: is_ascii_def ascii_lower_def same_letter_lower_char)

lemma differ_only_in_case_ascii_lower:
  "is_ascii d1 \<Longrightarrow> is_ascii d2 \<Longrightarrow> differ_only_in_case d1 d2 \<Longrightarrow> ascii_lower d1 = ascii_lower d2"
  by (simp add: differ_only_in_case_ascii same_letters_ascii_lower)

lemma lower_points_ascii:
  "list_all (\<lambda>p. p < 128) ps \<Longrightarrow> lower_points seen ps = map lower_point ps"
  by (induction ps arbitrary: seen) simp_all

lemma encode_ascii: "list_all (\<lambda>p. p < 128) ps \<Longrightarrow> encode ps = map char_of ps"
  by (induction ps) (simp_all add: encode_def encode_point_def)

lemma lower_point_ascii: "p < 128 \<Longrightarrow> lower_point p < 128"
  by (auto simp: lower_point_def)

lemma char_of_lower_point: "(of_char c :: nat) < 128 \<Longrightarrow> char_of (lower_point (of_char c)) = lower_char c"
  by (simp add: lower_point_def lower_char_def Let_def)

lemma lower_latin_greek_ascii: "is_ascii s \<Longrightarrow> lower_latin_greek s = ascii_lower s"
proof -
  assume a: "is_ascii s"
  then have p: "list_all (\<lambda>p. p < 128) (map of_char s :: nat list)"
    by (simp add: is_ascii_def list_all_iff)
  then have q: "list_all (\<lambda>p. p < 128) (map lower_point (map of_char s :: nat list))"
    by (simp add: list_all_iff lower_point_ascii)
  have "lower_latin_greek s = encode (lower_points [] (map of_char s))"
    using a by (simp add: lower_latin_greek_def decode_ascii)
  also have "\<dots> = encode (map lower_point (map of_char s))"
    using p by (simp only: lower_points_ascii)
  also have "\<dots> = map char_of (map lower_point (map of_char s :: nat list))"
    using q by (rule encode_ascii)
  also have "\<dots> = ascii_lower s"
    using a by (simp add: ascii_lower_def is_ascii_def list_all_iff char_of_lower_point)
  finally show ?thesis .
qed

lemma lowers_ascii_latin_greek: "lowers_ascii lower_latin_greek"
  by (simp add: lowers_ascii_def lower_latin_greek_ascii)

lemma decode_eq_Nil: "decode s = [] \<longleftrightarrow> s = []"
  by (cases s) (auto simp: Let_def split: list.splits)

lemma lower_points_eq_Nil: "lower_points seen ps = [] \<longleftrightarrow> ps = []"
  by (cases ps) simp_all

lemma encode_eq_Nil: "encode ps = [] \<longleftrightarrow> ps = []"
  by (cases ps) (auto simp: encode_def encode_point_def)

lemma keeps_empty_latin_greek: "keeps_empty lower_latin_greek"
  by (simp add: keeps_empty_def lower_latin_greek_def encode_eq_Nil lower_points_eq_Nil
      decode_eq_Nil)

lemmas text_eval = lower_latin_greek_def encode_def encode_point_def Let_def
  final_sigma_def cased_def case_ignorable_def lower_point_def char_of_eq_iff
  odos_small_def odos_capital_def

lemma str_contains_sublist: "str_contains needle hay = sublist needle hay"
  by (induction hay) (simp_all add: sublist_Cons_right)

lemma keyword_loop_iff:
  "keyword_loop lower d kws \<longleftrightarrow> (\<exists>kw \<in> set kws. sublist (lower kw) d)"
  by (induction kws) (auto simp: str_contains_sublist)

section \<open>Properties of the classifier\<close>

lemma category_loop_range:
  "category_loop lower d cats \<in> fst ` set cats \<or> category_loop lower d cats = ''Other''"
  by (induction cats) force+

lemma category_loop_no_match:
  "\<forall>(c, kws) \<in> set cats. \<not> keyword_loop lower d kws \<Longrightarrow> category_loop lower d cats = ''Other''"
  by (induction cats) auto

lemma category_loop_first:
  "i < length cats \<Longrightarrow> keyword_loop lower d (snd (cats ! i)) \<Longrightarrow>
   \<forall>k < i. \<not> keyword_loop lower d (snd (cats ! k)) \<Longrightarrow>
   category_loop lower d cats = fst (cats ! i)"
proof (induction cats arbitrary: i)
  case Nil
  then show ?case by simp
next
  case (Cons p cats)
  obtain c kws where p: "p = (c, kws)" by (cases p)
  show ?case
  proof (cases i)
    case 0
    with Cons.prems p show ?thesis by simp
  next
    case (Suc i')
    with Cons.prems have "\<not> keyword_loop lower d (snd ((p # cats) ! 0))" by blast
    with p have no: "\<not> keyword_loop lower d kws" by simp
    have "category_loop lower d cats = fst (cats ! i')"
    proof (rule Cons.IH)
      show "i' < length cats" using Cons.prems(1) Suc by simp
      show "keyword_loop lower d (snd (cats ! i'))" using Cons.prems(2) Suc by simp
      show "\<forall>k<i'. \<not> keyword_loop lower d (snd (cats ! k))"
      proof (intro allI impI)
        fix k assume "k < i'"
        then have "Suc k < i" using Suc by simp
        with Cons.prems(3) have "\<not> keyword_loop lower d (snd ((p # cats) ! Suc k))" by blast
        then show "\<not> keyword_loop lower d (snd (cats ! k))" by simp
      qed
    qed
    with no p Suc show ?thesis by simp
  qed
qed

lemma categorize_expense_text:
  "categorize_expense lower (PyStr d) cats = Inr (category_loop lower (lower d) cats)"
  by (simp add: categorize_expense_def)

text \<open>
  C1, as the code has it. First match wins, by category order and then keyword order:
  when the lower-case form of the description contains the lower-case form of keyword
  \<open>j\<close> of the \<open>i\<close>-th category, whose name is \<open>C\<close>, and every keyword of a category with
  another name that is found in the same way sits at a later position,
  \<open>categorize_expense\<close> returns \<open>C\<close>. This holds for every lower-casing function.
\<close>

theorem categorize_expense_first_match:
  assumes hit: "matches_at lower description categories i j"
    and name: "fst (categories ! i) = C"
    and first: "\<forall>i' j'. matches_at lower description categories i' j' \<and> fst (categories ! i') \<noteq> C
                  \<longrightarrow> earlier (i, j) (i', j')"
  shows "categorize_expense lower (PyStr description) categories = Inr C"
proof -
  let ?d = "lower description"
  let ?P = "\<lambda>k. k < length categories \<and> keyword_loop lower ?d (snd (categories ! k))"
  define i0 where "i0 = (LEAST k. ?P k)"
  from hit have "?P i"
    unfolding matches_at_def keyword_loop_iff by (meson nth_mem)
  then have P0: "?P i0" and le: "i0 \<le> i"
    unfolding i0_def by (rule LeastI, rule Least_le)
  have before: "\<forall>k < i0. \<not> keyword_loop lower ?d (snd (categories ! k))"
  proof (intro allI impI)
    fix k assume k: "k < i0"
    then have "\<not> ?P k" unfolding i0_def by (rule not_less_Least)
    moreover from k P0 have "k < length categories" by simp
    ultimately show "\<not> keyword_loop lower ?d (snd (categories ! k))" by simp
  qed
  from P0 before have res: "category_loop lower ?d categories = fst (categories ! i0)"
    by (intro category_loop_first) simp_all
  have "fst (categories ! i0) = C"
  proof (rule ccontr)
    assume other: "fst (categories ! i0) \<noteq> C"
    from P0 obtain kw where "kw \<in> set (snd (categories ! i0))" "sublist (lower kw) ?d"
      unfolding keyword_loop_iff by blast
    then obtain j0 where "j0 < length (snd (categories ! i0))"
      "sublist (lower (snd (categories ! i0) ! j0)) ?d"
      by (auto simp: in_set_conv_nth)
    with P0 have "matches_at lower description categories i0 j0"
      unfolding matches_at_def by simp
    with first other have "earlier (i, j) (i0, j0)" by blast
    with le have "i = i0" unfolding earlier_def by auto
    with name other show False by simp
  qed
  with res show ?thesis by (simp add: categorize_expense_text)
qed

theorem categorize_expense_first_match_witness:
  "matches_at lower_latin_greek ''Uber to LUNCH''
     [(''Food'', [''grocery'', ''lunch'']), (''Transport'', [''uber''])] 0 1
   \<and> categorize_expense lower_latin_greek (PyStr ''Uber to LUNCH'')
       [(''Food'', [''grocery'', ''lunch'']), (''Transport'', [''uber''])] = Inr ''Food''"
proof -
  let ?cats = "[(''Food'', [''grocery'', ''lunch'']), (''Transport'', [''uber''])]"
  have hit: "matches_at lower_latin_greek ''Uber to LUNCH'' ?cats 0 1"
    by (simp add: matches_at_def text_eval sublist_code)
  have name: "fst (?cats ! 0) = ''Food''" by simp
  have first: "\<forall>i' j'. matches_at lower_latin_greek ''Uber to LUNCH'' ?cats i' j'
                  \<and> fst (?cats ! i') \<noteq> ''Food'' \<longrightarrow> earlier (0, 1) (i', j')"
  proof (intro allI impI, elim conjE)
    fix i' j'
    assume n: "fst (?cats ! i') \<noteq> ''Food''"
    then have "i' \<noteq> 0" by (cases i') auto
    then show "earlier (0, 1) (i', j')" by (simp add: earlier_def)
  qed
  from hit categorize_expense_first_match [OF hit name first] show ?thesis
    by (rule conjI)
qed

text \<open>
  C1 as stated fails where lower-casing is not a case folding. The description holds the
  Greek word in capitals, followed by \<open>lunch\<close>; the word in small letters is the only
  keyword of the first category, and it differs from the capitals only in letter case.
  Lower-casing the description gives the word a final sigma, the keyword has a sigma, so
  the first category is passed over and the second one is returned.
\<close>

theorem categorize_expense_final_sigma_counterexample:
  "sublist odos_capital (odos_capital @ '' lunch'')
   \<and> differ_only_in_case odos_small odos_capital
   \<and> categorize_expense lower_latin_greek (PyStr (odos_capital @ '' lunch''))
       [(''Travel'', [odos_small]), (''Food'', [''lunch''])] = Inr ''Food''"
proof -
  have a: "sublist odos_capital (odos_capital @ '' lunch'')" by simp
  have b: "differ_only_in_case odos_small odos_capital"
    by (simp add: differ_only_in_case_def same_letter_def upper_point_def text_eval)
  have c: "categorize_expense lower_latin_greek (PyStr (odos_capital @ '' lunch''))
       [(''Travel'', [odos_small]), (''Food'', [''lunch''])] = Inr ''Food''"
    by (simp add: categorize_expense_def text_eval)
  from a b c show ?thesis by (intro conjI)
qed

text \<open>
  C2. When the lower-case form of no keyword of any category occurs in the lower-case
  form of the description, \<open>categorize_expense\<close> returns the literal \<open>Other\<close>; nothing is
  asked of the store, so this covers the empty store and stores without a key \<open>Other\<close>.
  This holds for every lower-casing function.
\<close>

theorem categorize_expense_no_match:
  assumes "\<forall>(category, keywords) \<in> set categories.
             \<forall>keyword \<in> set keywords. \<not> sublist (lower keyword) (lower description)"
  shows "categorize_expense lower (PyStr description) categories = Inr ''Other''"
proof -
  from assms have "\<forall>(c, kws) \<in> set categories. \<not> keyword_loop lower (lower description) kws"
    unfolding keyword_loop_iff by blast
  then show ?thesis
    by (simp add: categorize_expense_text category_loop_no_match)
qed

theorem categorize_expense_no_match_witness:
  "categorize_expense lower_latin_greek (PyStr ''Rent for May'') default_categories = Inr ''Other''
   \<and> categorize_expense lower_latin_greek (PyStr ''Rent for May'') [] = Inr ''Other''
   \<and> categorize_expense lower_latin_greek (PyStr ''Rent for May'') [(''Food'', [''grocery''])]
       = Inr ''Other''"
proof -
  have a: "\<forall>(category, keywords) \<in> set default_categories.
             \<forall>keyword \<in> set keywords.
               \<not> sublist (lower_latin_greek keyword) (lower_latin_greek ''Rent for May'')"
    by (simp add: default_categories_def text_eval sublist_code)
  have b: "\<forall>(category, keywords) \<in> set ([] :: categories).
             \<forall>keyword \<in> set keywords.
               \<not> sublist (lower_latin_greek keyword) (lower_latin_greek ''Rent for May'')"
    by simp
  have c: "\<forall>(category, keywords) \<in> set [(''Food'', [''grocery''])].
             \<forall>keyword \<in> set keywords.
               \<not> sublist (lower_latin_greek keyword) (lower_latin_greek ''Rent for May'')"
    by (simp add: text_eval sublist_code)
  from categorize_expense_no_match [OF a] categorize_expense_no_match [OF b]
    categorize_expense_no_match [OF c]
  show ?thesis by (intro conjI)
qed

text \<open>
  C3, as the code has it. Two descriptions with the same lower-case form get the same
  category; so do, when the lower-casing function does on ASCII texts what \<open>str.lower()\<close>
  does, two descriptions of ASCII characters that differ only in letter case.
\<close>

theorem categorize_expense_case_insensitive:
  "(lower d1 = lower d2 \<longrightarrow>
      categorize_expense lower (PyStr d1) categories = categorize_expense lower (PyStr d2) categories)
   \<and> (lowers_ascii lower \<and> is_ascii d1 \<and> is_ascii d2 \<and> differ_only_in_case d1 d2 \<longrightarrow>
      categorize_expense lower (PyStr d1) categories = categorize_expense lower (PyStr d2) categories)"
proof (intro conjI impI)
  assume "lower d1 = lower d2"
  then show "categorize_expense lower (PyStr d1) categories
               = categorize_expense lower (PyStr d2) categories"
    by (simp add: categorize_expense_text)
next
  assume a: "lowers_ascii lower \<and> is_ascii d1 \<and> is_ascii d2 \<and> differ_only_in_case d1 d2"
  then have "ascii_lower d1 = ascii_lower d2"
    by (simp add: differ_only_in_case_ascii_lower)
  with a have "lower d1 = lower d2" by (simp add: lowers_ascii_def)
  then show "categorize_expense lower (PyStr d1) categories
               = categorize_expense lower (PyStr d2) categories"
    by (simp add: categorize_expense_text)
qed

theorem categorize_expense_case_insensitive_witness:
  "differ_only_in_case ''GROCERY run'' ''grocery run''
   \<and> categorize_expense lower_latin_greek (PyStr ''GROCERY run'') default_categories
       = categorize_expense lower_latin_greek (PyStr ''grocery run'') default_categories
   \<and> categorize_expense lower_latin_greek (PyStr ''grocery run'') default_categories = Inr ''Food''"
proof -
  have a: "differ_only_in_case ''GROCERY run'' ''grocery run''"
    by (simp add: differ_only_in_case_def same_letter_def upper_point_def Let_def)
  have a1: "is_ascii ''GROCERY run''" and a2: "is_ascii ''grocery run''"
    by (simp_all add: is_ascii_def)
  have b: "categorize_expense lower_latin_greek (PyStr ''grocery run'') default_categories = Inr ''Food''"
    by (simp add: categorize_expense_def default_categories_def text_eval)
  from categorize_expense_case_insensitive
    [of lower_latin_greek "''GROCERY run''" "''grocery run''" default_categories]
    lowers_ascii_latin_greek a a1 a2
  have c: "categorize_expense lower_latin_greek (PyStr ''GROCERY run'') default_categories
       = categorize_expense lower_latin_greek (PyStr ''grocery run'') default_categories"
    by blast
  from a c b show ?thesis by (intro conjI)
qed

text \<open>
  C3 as stated fails on the Greek word: in small letters it is its own keyword and is
  found; in capitals it differs from that only in letter case, its lower-case form ends
  with the final sigma, and the keyword is not found.
\<close>

theorem categorize_expense_case_counterexample:
  "differ_only_in_case odos_small odos_capital
   \<and> categorize_expense lower_latin_greek (PyStr odos_small) [(''Travel'', [odos_small])]
       = Inr ''Travel''
   \<and> categorize_expense lower_latin_greek (PyStr odos_capital) [(''Travel'', [odos_small])]
       = Inr ''Other''"
proof -
  have a: "differ_only_in_case odos_small odos_capital"
    by (simp add: differ_only_in_case_def same_letter_def upper_point_def text_eval)
  have b: "categorize_expense lower_latin_greek (PyStr odos_small) [(''Travel'', [odos_small])]
       = Inr ''Travel''"
    by (simp add: categorize_expense_def text_eval)
  have c: "categorize_expense lower_latin_greek (PyStr odos_capital) [(''Travel'', [odos_small])]
       = Inr ''Other''"
    by (simp add: categorize_expense_def text_eval)
  from a b c show ?thesis by (intro conjI)
qed

text \<open>
  C10. For every description and every category store, \<open>categorize_expense\<close> returns a
  category, and it is a key of the store or the literal \<open>Other\<close>; so is every category
  that is returned for a value that is not text.
\<close>

theorem categorize_expense_key_or_other:
  "(\<exists>c. categorize_expense lower (PyStr description) categories = Inr c
        \<and> (c \<in> fst ` set categories \<or> c = ''Other''))
   \<and> (categorize_expense lower v categories = Inr c' \<longrightarrow>
        c' \<in> fst ` set categories \<or> c' = ''Other'')"
proof (intro conjI impI)
  show "\<exists>c. categorize_expense lower (PyStr description) categories = Inr c
        \<and> (c \<in> fst ` set categories \<or> c = ''Other'')"
    using category_loop_range [of lower "lower description" categories]
    by (simp add: categorize_expense_text)
next
  assume "categorize_expense lower v categories = Inr c'"
  then obtain t where "c' = category_loop lower (lower t) categories"
    by (auto simp: categorize_expense_def split: sum.splits)
  then show "c' \<in> fst ` set categories \<or> c' = ''Other''"
    using category_loop_range [of lower "lower t" categories] by simp
qed

theorem categorize_expense_key_or_other_witness:
  "categorize_expense lower_latin_greek (PyStr ''taxi home'') default_categories = Inr ''Transport''
   \<and> ''Transport'' \<in> fst ` set default_categories"
proof -
  have a: "categorize_expense lower_latin_greek (PyStr ''taxi home'') default_categories
             = Inr ''Transport''"
    by (simp add: categorize_expense_def default_categories_def text_eval)
  have "''Transport'' \<noteq> ''Other''" by simp
  with categorize_expense_key_or_other
    [of lower_latin_greek "''taxi home''" default_categories "PyStr ''taxi home''" "''Transport''"] a
  show ?thesis by simp
qed

lemma keyword_loop_empty_description:
  "keeps_empty lower \<Longrightarrow> keyword_loop lower [] kws \<longleftrightarrow> [] \<in> set kws"
  by (induction kws) (auto simp: keeps_empty_def)

lemma category_loop_empty_description:
  "keeps_empty lower \<Longrightarrow> no_empty_keyword cats \<Longrightarrow> category_loop lower [] cats = ''Other''"
  unfolding no_empty_keyword_def
  by (induction cats) (auto simp: keyword_loop_empty_description)

lemma str_raises_iff: "(\<exists>e. str v = Inl e) \<longleftrightarrow> (\<exists>i. v = PyInt i \<and> int_str_limit \<le> \<bar>i\<bar>)"
  by (cases v) simp_all

text \<open>
  C4, as the code has it. For every store without an empty keyword, the empty description
  is classified as \<open>Other\<close>; with the empty store every description is classified as
  \<open>Other\<close>; a value that is not text is classified as its \<open>str()\<close> is; and
  \<open>categorize_expense\<close> raises exactly when \<open>str()\<close> does, which among the values modelled
  is for an integer of more than 4300 decimal digits.
\<close>

theorem categorize_expense_no_error_conditions:
  "(keeps_empty lower \<and> no_empty_keyword categories \<longrightarrow>
      categorize_expense lower (PyStr []) categories = Inr ''Other'')
   \<and> categorize_expense lower (PyStr description) [] = Inr ''Other''
   \<and> (str v = Inr text \<longrightarrow>
        categorize_expense lower v categories = categorize_expense lower (PyStr text) categories)
   \<and> ((\<exists>e. categorize_expense lower v categories = Inl e) \<longleftrightarrow>
        (\<exists>i. v = PyInt i \<and> int_str_limit \<le> \<bar>i\<bar>))"
proof (intro conjI impI)
  assume a: "keeps_empty lower \<and> no_empty_keyword categories"
  then have "lower [] = []" by (simp add: keeps_empty_def)
  with a show "categorize_expense lower (PyStr []) categories = Inr ''Other''"
    by (simp add: categorize_expense_text category_loop_empty_description)
next
  show "categorize_expense lower (PyStr description) [] = Inr ''Other''"
    by (simp add: categorize_expense_text)
next
  assume "str v = Inr text"
  then show "categorize_expense lower v categories
               = categorize_expense lower (PyStr text) categories"
    by (simp add: categorize_expense_def)
next
  have "(\<exists>e. categorize_expense lower v categories = Inl e) \<longleftrightarrow> (\<exists>e. str v = Inl e)"
    by (cases "str v") (simp_all add: categorize_expense_def)
  then show "(\<exists>e. categorize_expense lower v categories = Inl e) \<longleftrightarrow>
        (\<exists>i. v = PyInt i \<and> int_str_limit \<le> \<bar>i\<bar>)"
    by (simp only: str_raises_iff)
qed

theorem categorize_expense_no_error_conditions_witness:
  "no_empty_keyword default_categories
   \<and> categorize_expense lower_latin_greek (PyStr '''') default_categories = Inr ''Other''
   \<and> categorize_expense lower_latin_greek (PyStr ''coffee'') [] = Inr ''Other''
   \<and> categorize_expense lower_latin_greek PyNone [(''Misc'', [''non''])] = Inr ''Misc''"
proof -
  have a: "no_empty_keyword default_categories"
    by (simp add: no_empty_keyword_def default_categories_def)
  have b: "categorize_expense lower_latin_greek (PyStr ''None'') [(''Misc'', [''non''])] = Inr ''Misc''"
    by (simp add: categorize_expense_def text_eval)
  note t = categorize_expense_no_error_conditions
  from t [of lower_latin_greek default_categories] keeps_empty_latin_greek a
  have c: "categorize_expense lower_latin_greek (PyStr '''') default_categories = Inr ''Other''"
    by blast
  from t [of lower_latin_greek _ "''coffee''"]
  have d: "categorize_expense lower_latin_greek (PyStr ''coffee'') [] = Inr ''Other''"
    by blast
  have "str PyNone = Inr ''None''" by simp
  with t [of lower_latin_greek "[(''Misc'', [''non''])]" _ PyNone "''None''"] b
  have e: "categorize_expense lower_latin_greek PyNone [(''Misc'', [''non''])] = Inr ''Misc''"
    by simp
  from a c d e show ?thesis by (intro conjI)
qed

text \<open>
  C4 as stated fails twice. On a store with an empty keyword the empty description is
  classified as the category of that keyword: the empty string occurs in every string,
  the empty one included. And the integer written as 1 followed by 4300 zeros has 4301
  digits, so its \<open>str()\<close> raises.
\<close>

theorem categorize_expense_no_error_conditions_counterexample:
  "categorize_expense lower_latin_greek (PyStr '''') [(''Food'', ['''']), (''Other'', [])]
     = Inr ''Food''
   \<and> categorize_expense lower_latin_greek (PyInt (10 ^ 4300)) [] = Inl digits_error"
proof -
  have a: "categorize_expense lower_latin_greek (PyStr '''') [(''Food'', ['''']), (''Other'', [])]
     = Inr ''Food''"
    by (simp add: categorize_expense_def text_eval)
  have "int_str_limit \<le> \<bar>10 ^ 4300 :: int\<bar>"
    unfolding int_str_limit_def by (rule abs_ge_self)
  then have "str (PyInt (10 ^ 4300)) = Inl digits_error"
    by (simp only: str.simps if_True)
  then have b: "categorize_expense lower_latin_greek (PyInt (10 ^ 4300)) [] = Inl digits_error"
    by (simp only: categorize_expense_def sum.case)
  from a b show ?thesis by (intro conjI)
qed

section \<open>Properties of adding a keyword\<close>

text \<open>
  C5, as the code has it. A keyword that is not empty is appended as it is, duplicates and
  letter case kept, to the list of a category that is a key of the store; the other
  categories and the order of the keys stay. For an empty keyword the store stays as it is.
  For a name that is not a key, the lookup raises \<open>KeyError\<close>.
\<close>

theorem add_keyword_appends:
  "(new_keyword \<noteq> [] \<and> map_of categories c = Some keywords \<longrightarrow>
      (\<exists>categories'. add_keyword c new_keyword categories = Inr categories'
         \<and> map_of categories' c = Some (keywords @ [new_keyword])
         \<and> (\<forall>c'. c' \<noteq> c \<longrightarrow> map_of categories' c' = map_of categories c')
         \<and> map fst categories' = map fst categories))
   \<and> (new_keyword = [] \<longrightarrow> add_keyword c new_keyword categories = Inr categories)
   \<and> (new_keyword \<noteq> [] \<and> map_of categories c = None \<longrightarrow>
        add_keyword c new_keyword categories = Inl (KeyError c))"
proof (intro conjI impI)
  assume a: "new_keyword \<noteq> [] \<and> map_of categories c = Some keywords"
  then have "c \<in> fst ` set categories" by (auto dest: map_of_SomeD intro: rev_image_eqI)
  then have "map fst (AList.update c (keywords @ [new_keyword]) categories) = map fst categories"
    by (simp add: update_keys)
  with a show "\<exists>categories'. add_keyword c new_keyword categories = Inr categories'
         \<and> map_of categories' c = Some (keywords @ [new_keyword])
         \<and> (\<forall>c'. c' \<noteq> c \<longrightarrow> map_of categories' c' = map_of categories c')
         \<and> map fst categories' = map fst categories"
    by (simp add: add_keyword_def update_conv')
qed (simp_all add: add_keyword_def)

theorem add_keyword_appends_witness:
  "add_keyword ''Food'' ''Grocery'' [(''Food'', [''grocery'']), (''Other'', [])]
     = Inr [(''Food'', [''grocery'', ''Grocery'']), (''Other'', [])]
   \<and> add_keyword ''Food'' ''grocery'' [(''Food'', [''grocery'']), (''Other'', [])]
     = Inr [(''Food'', [''grocery'', ''grocery'']), (''Other'', [])]
   \<and> add_keyword ''Food'' '''' [(''Food'', [''grocery'']), (''Other'', [])]
     = Inr [(''Food'', [''grocery'']), (''Other'', [])]
   \<and> add_keyword ''Rent'' ''lease'' [(''Food'', [''grocery'']), (''Other'', [])]
     = Inl (KeyError ''Rent'')"
proof -
  let ?cats = "[(''Food'', [''grocery'']), (''Other'', [])]"
  have food: "map_of ?cats ''Food'' = Some [''grocery'']" by simp
  have rent: "map_of ?cats ''Rent'' = None" by simp
  from add_keyword_appends [of "''Grocery''" ?cats "''Food''" "[''grocery'']"] food
  obtain c1 where c1: "add_keyword ''Food'' ''Grocery'' ?cats = Inr c1"
    "map_of c1 ''Food'' = Some [''grocery'', ''Grocery'']" by auto
  have a: "add_keyword ''Food'' ''Grocery'' ?cats = Inr [(''Food'', [''grocery'', ''Grocery'']), (''Other'', [])]"
    by (simp add: add_keyword_def)
  have b: "add_keyword ''Food'' ''grocery'' ?cats = Inr [(''Food'', [''grocery'', ''grocery'']), (''Other'', [])]"
    by (simp add: add_keyword_def)
  from add_keyword_appends [of "''''" ?cats "''Food''" "[''grocery'']"]
  have c: "add_keyword ''Food'' '''' ?cats = Inr ?cats" by simp
  from add_keyword_appends [of "''lease''" ?cats "''Rent''" "[]"] rent
  have d: "add_keyword ''Rent'' ''lease'' ?cats = Inl (KeyError ''Rent'')" by simp
  from a b c d show ?thesis by (intro conjI)
qed

text \<open>
  C5 as stated fails: with a key of the store and the empty keyword nothing is appended,
  and with a name that is not a key the outcome is the exception \<open>KeyError\<close>.
\<close>

theorem add_keyword_counterexample:
  "map_of [(''Food'', [''grocery'']), (''Other'', [])] ''Food'' = Some [''grocery'']
   \<and> add_keyword ''Food'' '''' [(''Food'', [''grocery'']), (''Other'', [])]
       = Inr [(''Food'', [''grocery'']), (''Other'', [])]
   \<and> map_of [(''Food'', [''grocery'']), (''Other'', [])] ''Rent'' = None
   \<and> add_keyword ''Rent'' ''lease'' [(''Food'', [''grocery'']), (''Other'', [])]
       = Inl (KeyError ''Rent'')"
  by (simp add: add_keyword_def)

section \<open>Properties of the ledger\<close>

text \<open>
  C6. A record with an empty description or an amount that is not positive is rejected
  with a validation error; every other record is appended at the end of the ledger.
\<close>

theorem add_expense_validates:
  "(description = [] \<longrightarrow>
      add_expense date description category amount expenses_df = Inl Please_enter_a_description)
   \<and> (description \<noteq> [] \<and> amount \<le> 0 \<longrightarrow>
        add_expense date description category amount expenses_df = Inl Amount_must_be_positive)
   \<and> (description \<noteq> [] \<and> 0 < amount \<longrightarrow>
        add_expense date description category amount expenses_df =
          Inr (expenses_df @
            [\<lparr>Date = date, Description = description, Category = category, Amount = amount\<rparr>]))"
  by (simp add: add_expense_def)

theorem add_expense_validates_witness:
  "add_expense 4 ''coffee'' ''Food'' 0 sample_ledger = Inl Amount_must_be_positive
   \<and> add_expense 4 ''coffee'' ''Food'' (- 5) sample_ledger = Inl Amount_must_be_positive
   \<and> add_expense 4 '''' ''Food'' 7 sample_ledger = Inl Please_enter_a_description
   \<and> add_expense 4 ''coffee'' ''Food'' (1 / 100) sample_ledger =
        Inr (sample_ledger @
          [\<lparr>Date = 4, Description = ''coffee'', Category = ''Food'', Amount = 1 / 100\<rparr>])"
proof -
  have ne: "''coffee'' \<noteq> []" by simp
  from add_expense_validates [of "''coffee''" 4 "''Food''" 0 sample_ledger] ne
  have a: "add_expense 4 ''coffee'' ''Food'' 0 sample_ledger = Inl Amount_must_be_positive"
    by simp
  from add_expense_validates [of "''coffee''" 4 "''Food''" "- 5" sample_ledger] ne
  have b: "add_expense 4 ''coffee'' ''Food'' (- 5) sample_ledger = Inl Amount_must_be_positive"
    by simp
  from add_expense_validates [of "''''" 4 "''Food''" 7 sample_ledger]
  have c: "add_expense 4 '''' ''Food'' 7 sample_ledger = Inl Please_enter_a_description"
    by simp
  from add_expense_validates [of "''coffee''" 4 "''Food''" "1 / 100" sample_ledger] ne
  have d: "add_expense 4 ''coffee'' ''Food'' (1 / 100) sample_ledger =
        Inr (sample_ledger @
          [\<lparr>Date = 4, Description = ''coffee'', Category = ''Food'', Amount = 1 / 100\<rparr>])"
    by simp
  from a b c d show ?thesis by (intro conjI)
qed

text \<open>
  C7. The listing holds exactly the records whose date lies between the two bounds, both
  included, and whose category is the selected one unless the selection is \<open>All\<close>; they
  stand in the order of the ledger.
\<close>

theorem filter_expenses_exact:
  "filter_expenses start_date end_date selected_category expenses_df =
     filter (\<lambda>r. start_date \<le> Date r \<and> Date r \<le> end_date
                 \<and> (selected_category = ''All'' \<or> Category r = selected_category))
       expenses_df
   \<and> subseq (filter_expenses start_date end_date selected_category expenses_df) expenses_df"
proof -
  have eq: "filter_expenses start_date end_date selected_category expenses_df =
     filter (\<lambda>r. start_date \<le> Date r \<and> Date r \<le> end_date
                 \<and> (selected_category = ''All'' \<or> Category r = selected_category))
       expenses_df"
    unfolding filter_expenses_def Let_def
    by (cases "selected_category = ''All''") (simp_all add: conj_commute conj_left_commute)
  show ?thesis
    unfolding eq by simp
qed

theorem filter_expenses_exact_witness:
  "filter_expenses 1 3 ''All'' sample_ledger = sample_ledger
   \<and> filter_expenses 1 2 ''All'' sample_ledger = tl sample_ledger
   \<and> filter_expenses 1 3 ''Food'' sample_ledger = butlast sample_ledger
   \<and> filter_expenses 3 3 ''Transport'' sample_ledger = []"
proof -
  note eq = filter_expenses_exact [THEN conjunct1]
  have a: "filter_expenses 1 3 ''All'' sample_ledger = sample_ledger"
    unfolding eq by (simp add: sample_ledger_def)
  have b: "filter_expenses 1 2 ''All'' sample_ledger = tl sample_ledger"
    unfolding eq by (simp add: sample_ledger_def)
  have c: "filter_expenses 1 3 ''Food'' sample_ledger = butlast sample_ledger"
    unfolding eq by (simp add: sample_ledger_def)
  have d: "filter_expenses 3 3 ''Transport'' sample_ledger = []"
    unfolding eq by (simp add: sample_ledger_def)
  from a b c d show ?thesis by (intro conjI)
qed

section \<open>Properties of loading\<close>

lemma add_missing_column_keys:
  "fst ` set (columns (add_missing_column col df)) = insert col (fst ` set (columns df))"
  by (auto simp: add_missing_column_def)

lemma fold_add_missing_column_keys:
  "fst ` set (columns (fold add_missing_column cols df)) = set cols \<union> fst ` set (columns df)"
  by (induction cols arbitrary: df) (auto simp: add_missing_column_keys)

lemma load_data_try_fails_iff:
  "load_data_try read_csv to_datetime = Inl e \<longleftrightarrow>
     read_csv = Inl e
     \<or> (\<exists>df0 dates. read_csv = Inr df0
          \<and> map_of (columns (fold add_missing_column required_columns df0)) ''Date'' = Some dates
          \<and> to_datetime dates = Inl e)"
proof (cases read_csv)
  case (Inl e')
  then show ?thesis by (simp add: load_data_try_def)
next
  case (Inr df0)
  let ?df = "fold add_missing_column required_columns df0"
  show ?thesis
  proof (cases "map_of (columns ?df) ''Date''")
    case None
    with Inr show ?thesis by (simp add: load_data_try_def Let_def)
  next
    case (Some dates)
    with Inr show ?thesis
      by (cases "to_datetime dates") (simp_all add: load_data_try_def Let_def)
  qed
qed

lemma load_categories_try_fails_iff:
  "load_categories_try open_file json_load = Inl e \<longleftrightarrow>
     open_file = Inl e \<or> (\<exists>f. open_file = Inr f \<and> json_load f = Inl e)"
  by (cases open_file) (simp_all add: load_categories_try_def)

lemma update_keys_present:
  "map_of al k = Some v \<Longrightarrow> map fst (AList.update k w al) = map fst al"
proof -
  assume "map_of al k = Some v"
  then have "k \<in> set (map fst al)" by (metis map_of_eq_None_iff option.distinct(1) set_map)
  then show ?thesis by (simp add: update_keys)
qed

lemma load_data_required_columns:
  "set required_columns \<subseteq> fst ` set (columns (load_data read_csv to_datetime))"
proof (cases read_csv)
  case (Inl e)
  then show ?thesis
    by (simp add: load_data_def load_data_try_def DataFrame_def required_columns_def)
next
  case (Inr df0)
  let ?df = "fold add_missing_column required_columns df0"
  have k: "set required_columns \<subseteq> set (map fst (columns ?df))"
    using fold_add_missing_column_keys [of required_columns df0] by auto
  show ?thesis
  proof (cases "map_of (columns ?df) ''Date''")
    case None
    with Inr k show ?thesis by (simp add: load_data_def load_data_try_def Let_def)
  next
    case (Some dates)
    show ?thesis
    proof (cases "to_datetime dates")
      case (Inl e)
      with Inr Some show ?thesis
        by (simp add: load_data_def load_data_try_def Let_def DataFrame_def required_columns_def)
    next
      case (Inr stamps)
      have "map fst (AList.update ''Date'' stamps (columns ?df)) = map fst (columns ?df)"
        using Some by (rule update_keys_present)
      then have "set (map fst (AList.update ''Date'' stamps (columns ?df))) = set (map fst (columns ?df))"
        by simp
      with k have "set required_columns \<subseteq> fst ` set (AList.update ''Date'' stamps (columns ?df))"
        by simp
      with \<open>read_csv = Inr df0\<close> Some Inr show ?thesis
        by (simp add: load_data_def load_data_try_def Let_def)
    qed
  qed
qed

text \<open>
  C9. When the body of the \<open>try\<close> of \<open>load_data\<close> raises, in particular when reading the
  file raises or the conversion of the dates raises, \<open>load_data\<close> returns the table with
  no rows and the four columns; when the body of the \<open>try\<close> of \<open>load_categories\<close> raises,
  in particular when opening the file or parsing it raises, \<open>load_categories\<close> returns
  the store whose only key is \<open>Other\<close>, with no keyword.
\<close>

theorem load_failure_defaults:
  "(load_data_try read_csv to_datetime = Inl e \<longrightarrow>
      load_data read_csv to_datetime =
        \<lparr>nrows = 0,
         columns = [(''Date'', []), (''Description'', []), (''Category'', []), (''Amount'', [])]\<rparr>)
   \<and> (read_csv = Inl e \<longrightarrow>
      load_data read_csv to_datetime =
        \<lparr>nrows = 0,
         columns = [(''Date'', []), (''Description'', []), (''Category'', []), (''Amount'', [])]\<rparr>)
   \<and> (read_csv = Inr df0
        \<and> map_of (columns (fold add_missing_column required_columns df0)) ''Date'' = Some dates
        \<and> to_datetime dates = Inl e \<longrightarrow>
      load_data read_csv to_datetime =
        \<lparr>nrows = 0,
         columns = [(''Date'', []), (''Description'', []), (''Category'', []), (''Amount'', [])]\<rparr>)
   \<and> (load_categories_try open_file json_load = Inl e' \<longrightarrow>
        load_categories open_file json_load = [(''Other'', [])])
   \<and> (open_file = Inl e' \<longrightarrow> load_categories open_file json_load = [(''Other'', [])])
   \<and> (open_file = Inr f \<and> json_load f = Inl e' \<longrightarrow>
        load_categories open_file json_load = [(''Other'', [])])"
proof (intro conjI impI)
  assume "load_data_try read_csv to_datetime = Inl e"
  then show "load_data read_csv to_datetime =
        \<lparr>nrows = 0,
         columns = [(''Date'', []), (''Description'', []), (''Category'', []), (''Amount'', [])]\<rparr>"
    by (simp add: load_data_def DataFrame_def)
next
  assume "read_csv = Inl e"
  then have "load_data_try read_csv to_datetime = Inl e"
    by (simp add: load_data_try_fails_iff)
  then show "load_data read_csv to_datetime =
        \<lparr>nrows = 0,
         columns = [(''Date'', []), (''Description'', []), (''Category'', []), (''Amount'', [])]\<rparr>"
    by (simp add: load_data_def DataFrame_def)
next
  assume "read_csv = Inr df0
        \<and> map_of (columns (fold add_missing_column required_columns df0)) ''Date'' = Some dates
        \<and> to_datetime dates = Inl e"
  then have "load_data_try read_csv to_datetime = Inl e"
    unfolding load_data_try_fails_iff by blast
  then show "load_data read_csv to_datetime =
        \<lparr>nrows = 0,
         columns = [(''Date'', []), (''Description'', []), (''Category'', []), (''Amount'', [])]\<rparr>"
    by (simp add: load_data_def DataFrame_def)
next
  assume "load_categories_try open_file json_load = Inl e'"
  then show "load_categories open_file json_load = [(''Other'', [])]"
    by (simp add: load_categories_def)
next
  assume "open_file = Inl e'"
  then have "load_categories_try open_file json_load = Inl e'"
    by (simp add: load_categories_try_fails_iff)
  then show "load_categories open_file json_load = [(''Other'', [])]"
    by (simp add: load_categories_def)
next
  assume "open_file = Inr f \<and> json_load f = Inl e'"
  then have "load_categories_try open_file json_load = Inl e'"
    by (simp add: load_categories_try_fails_iff)
  then show "load_categories open_file json_load = [(''Other'', [])]"
    by (simp add: load_categories_def)
qed

theorem load_failure_defaults_witness:
  "load_data (Inl (OSError ''finance_data.csv'')) sample_to_datetime = DataFrame required_columns
   \<and> load_data (Inr \<lparr>nrows = 1, columns = [(''Date'', [Text ''yesterday'']), (''Amount'', [Number 3])]\<rparr>)
        sample_to_datetime = DataFrame required_columns
   \<and> load_categories (Inl (OSError ''categories.json'')) sample_json_load = [(''Other'', [])]
   \<and> load_categories (Inr ''{Food: ['') sample_json_load = [(''Other'', [])]"
proof -
  let ?df = "\<lparr>nrows = 1, columns = [(''Date'', [Text ''yesterday'']), (''Amount'', [Number 3])]\<rparr>"
  let ?os1 = "OSError ''finance_data.csv''" and ?os2 = "OSError ''categories.json''"
  let ?ve1 = "ValueError ''Unknown datetime string format''" and ?ve2 = "ValueError ''Expecting value''"
  have dates: "map_of (columns (fold add_missing_column required_columns ?df)) ''Date''
                 = Some [Text ''yesterday'']"
    by (simp add: required_columns_def add_missing_column_def)
  have bad: "sample_to_datetime [Text ''yesterday''] = Inl ?ve1"
    by (simp add: sample_to_datetime_def)
  have json: "sample_json_load ''{Food: ['' = Inl ?ve2"
    by (simp add: sample_json_load_def)
  have e: "DataFrame required_columns = \<lparr>nrows = 0,
         columns = [(''Date'', []), (''Description'', []), (''Category'', []), (''Amount'', [])]\<rparr>"
    by (simp add: DataFrame_def required_columns_def)
  note t1 = load_failure_defaults [of "Inl ?os1" sample_to_datetime ?os1 _ _ "Inl ?os2" sample_json_load ?os2]
  note t2 = load_failure_defaults [of "Inr ?df" sample_to_datetime ?ve1 ?df "[Text ''yesterday'']"
      "Inr ''{Food: [''" sample_json_load ?ve2 "''{Food: [''"]
  from t1 e have 1: "load_data (Inl ?os1) sample_to_datetime = DataFrame required_columns"
    and 3: "load_categories (Inl ?os2) sample_json_load = [(''Other'', [])]"
    by simp_all
  from t2 dates bad json e
  have 2: "load_data (Inr ?df) sample_to_datetime = DataFrame required_columns"
    and 4: "load_categories (Inr ''{Food: ['') sample_json_load = [(''Other'', [])]"
    by simp_all
  from 1 2 3 4 show ?thesis by (intro conjI)
qed

end
